theory Spec2Isabelle
  imports Complex_Main "HOL-Library.Multiset"
begin

section \<open>The graph of the notebook\<close>

text \<open>
  The notebook \<^verbatim>\<open>Amazon-Braket-MaximumCut.ipynb\<close> builds its graph with
  \<^verbatim>\<open>G = nx.Graph()\<close> and \<^verbatim>\<open>G.add_edges_from([(1,2),(1,3),(2,4),(3,4),(3,5),(4,5)])\<close>.
  \<^verbatim>\<open>nx.Graph\<close> is library code: an undirected graph kept as a dictionary from each node
  to the dictionary of its neighbours, both in insertion order. It is modelled as an
  association list from a node to the list of its neighbours.
\<close>

type_synonym node = int
type_synonym edge = "node \<times> node"
type_synonym graph = "(node \<times> node list) list"

text \<open>\<^verbatim>\<open>if u not in self._node: self._adj[u] = {}\<close>\<close>

definition add_node :: "node \<Rightarrow> graph \<Rightarrow> graph" where
  "add_node n g = (if n \<in> set (map fst g) then g else g @ [(n, [])])"

text \<open>\<^verbatim>\<open>self._adj[u][v] = datadict\<close>: a new key goes last, an old key keeps its place.\<close>

definition add_nbr :: "node \<Rightarrow> node \<Rightarrow> graph \<Rightarrow> graph" where
  "add_nbr u v g =
     map (\<lambda>(n, nbrs). if n = u then (n, if v \<in> set nbrs then nbrs else nbrs @ [v])
                        else (n, nbrs)) g"

definition add_edge :: "edge \<Rightarrow> graph \<Rightarrow> graph" where
  "add_edge e g =
     (case e of (u, v) \<Rightarrow> add_nbr v u (add_nbr u v (add_node v (add_node u g))))"

definition add_edges_from :: "edge list \<Rightarrow> graph \<Rightarrow> graph" where
  "add_edges_from es g = fold add_edge es g"

text \<open>\<^verbatim>\<open>G.nodes\<close> iterates over the keys of the adjacency dictionary.\<close>

definition nodes :: "graph \<Rightarrow> node list" where
  "nodes g = map fst g"

text \<open>
  \<^verbatim>\<open>G.edges\<close> walks the nodes in order and reports \<^verbatim>\<open>(n, nbr)\<close> for every neighbour
  that has not been walked yet, so each undirected edge is reported once.
\<close>

fun edges_seen :: "node list \<Rightarrow> graph \<Rightarrow> edge list" where
  "edges_seen seen [] = []"
| "edges_seen seen ((n, nbrs) # rest) =
     map (Pair n) (filter (\<lambda>nbr. nbr \<notin> set seen) nbrs) @ edges_seen (n # seen) rest"

definition edges :: "graph \<Rightarrow> edge list" where
  "edges g = edges_seen [] g"

definition G :: graph where
  "G = add_edges_from [(1,2),(1,3),(2,4),(3,4),(3,5),(4,5)] []"


section \<open>The QUBO dictionary\<close>

text \<open>
  \<^verbatim>\<open>Q = defaultdict(int)\<close> is a dictionary in insertion order whose missing keys read
  as 0. \<^verbatim>\<open>Q[k] += c\<close> reads the key (entering it with 0 when it is missing) and stores
  the sum.
\<close>

type_synonym qubo = "(edge \<times> int) list"

fun dict_add :: "'k \<Rightarrow> int \<Rightarrow> ('k \<times> int) list \<Rightarrow> ('k \<times> int) list" where
  "dict_add k c [] = [(k, 0 + c)]"
| "dict_add k c ((k', v) # kvs) =
     (if k' = k then (k', v + c) # kvs else (k', v) # dict_add k c kvs)"


definition keys :: "('k \<times> 'v) list \<Rightarrow> 'k list" where
  "keys d = map fst d"

text \<open>
  The body of \<^verbatim>\<open>for u, v in G.edges:\<close>, its three statements in their order.
\<close>

definition loop_body :: "edge \<Rightarrow> qubo \<Rightarrow> qubo" where
  "loop_body e q =
     (case e of (u, v) \<Rightarrow> dict_add (u, v) 2 (dict_add (v, v) (- 1) (dict_add (u, u) (- 1) q)))"

definition qubo_loop :: "edge list \<Rightarrow> qubo \<Rightarrow> qubo" where
  "qubo_loop es q = fold loop_body es q"

definition Q :: qubo where
  "Q = qubo_loop (edges G) []"



section \<open>Assignments, the QUBO objective and the cut\<close>

text \<open>
  An assignment gives every node the value 0 or 1. The objective of a QUBO dictionary at
  an assignment is the sum over its keys \<open>(i, j)\<close> of \<open>Q[(i, j)] * x i * x j\<close>; the
  notebook leaves its evaluation to the sampler, which reports it as the energy.
\<close>

definition binary_on :: "node list \<Rightarrow> (node \<Rightarrow> int) \<Rightarrow> bool" where
  "binary_on ns x = list_all (\<lambda>n. x n = 0 \<or> x n = 1) ns"

definition qubo_energy :: "qubo \<Rightarrow> (node \<Rightarrow> int) \<Rightarrow> int" where
  "qubo_energy q x = sum_list (map (\<lambda>((i, j), c). c * x i * x j) q)"

definition cut_size :: "edge list \<Rightarrow> (node \<Rightarrow> int) \<Rightarrow> nat" where
  "cut_size es x = length (filter (\<lambda>(u, v). x u \<noteq> x v) es)"

text \<open>
  A sample of the response is a dictionary from node to value, kept as its list of
  items. \<open>sample_value\<close> reads it as an assignment (the sampler's samples hold every
  variable of the problem, a missing one reads as 0 here).
\<close>

type_synonym sample = "(node \<times> int) list"

definition sample_value :: "sample \<Rightarrow> node \<Rightarrow> int" where
  "sample_value s n = (case map_of s n of None \<Rightarrow> 0 | Some v \<Rightarrow> v)"

text \<open>
  What the response's samples are for a problem over the nodes \<open>ns\<close>: one value, 0 or 1,
  for each node, each node being a key once.
\<close>

definition is_sample_of :: "node list \<Rightarrow> sample \<Rightarrow> bool" where
  "is_sample_of ns s \<longleftrightarrow>
     distinct (map fst s) \<and> set (map fst s) = set ns \<and> list_all (\<lambda>(k, v). v = 0 \<or> v = 1) s"

text \<open>All the samples over \<open>ns\<close>, in the order of \<open>ns\<close>.\<close>

definition assignments :: "node list \<Rightarrow> sample list" where
  "assignments ns = map (zip ns) (List.n_lists (length ns) [0, 1])"

section \<open>Dispatch to the sampler\<close>

text \<open>
  The call \<^verbatim>\<open>sampler.sample_qubo(Q, chain_strength=chainstrength, num_reads=numruns)\<close>
  leaves the repository; what the model keeps of it is its arguments. A keyword
  argument that is not passed would be \<open>None\<close>.
\<close>

record sample_qubo_call =
  arg_Q :: qubo
  arg_chain_strength :: "int option"
  arg_num_reads :: "int option"

record notebook =
  var_G :: graph
  var_Q :: qubo
  var_chainstrength :: int
  var_numruns :: int
  sent :: "sample_qubo_call list"

text \<open>The cell that sets the problem up: the graph literal, then the loop.\<close>

definition setup_cell :: "notebook \<Rightarrow> notebook" where
  "setup_cell s =
     (let s1 = s\<lparr>var_G := add_edges_from [(1,2),(1,3),(2,4),(3,4),(3,5),(4,5)] []\<rparr>
      in s1\<lparr>var_Q := qubo_loop (edges (var_G s1)) []\<rparr>)"

text \<open>The cell that solves it, up to the call of the sampler.\<close>

definition solve_cell :: "notebook \<Rightarrow> notebook" where
  "solve_cell s =
     (let s1 = s\<lparr>var_chainstrength := 8\<rparr>;
          s2 = s1\<lparr>var_numruns := 10\<rparr>
      in s2\<lparr>sent := sent s2 @
            [\<lparr>arg_Q = var_Q s2, arg_chain_strength = Some (var_chainstrength s2),
              arg_num_reads = Some (var_numruns s2)\<rparr>]\<rparr>)"


section \<open>The table of results\<close>

text \<open>
  \<^verbatim>\<open>S0 = [k for k,v in line.items() if v == 0]\<close> and the same with 1 for \<^verbatim>\<open>S1\<close>.
\<close>

definition row_S0 :: "sample \<Rightarrow> node list" where
  "row_S0 line = map fst (filter (\<lambda>(k, v). v = 0) line)"

definition row_S1 :: "sample \<Rightarrow> node list" where
  "row_S1 line = map fst (filter (\<lambda>(k, v). v = 1) line)"

text \<open>
  The energy is a float in the notebook. It is taken as a real number here, which is
  exact for the whole numbers the objective of this dictionary takes. Python's
  \<^verbatim>\<open>int\<close> of a float drops the fraction, towards zero.
\<close>

definition py_int :: "real \<Rightarrow> int" where
  "py_int r = (if 0 \<le> r then \<lfloor>r\<rfloor> else \<lceil>r\<rceil>)"

record row =
  row_set0 :: "node list"
  row_set1 :: "node list"
  row_energy :: real
  row_cut :: int

definition print_row :: "sample \<Rightarrow> real \<Rightarrow> row" where
  "print_row line E =
     \<lparr>row_set0 = row_S0 line, row_set1 = row_S1 line, row_energy = E, row_cut = py_int (- 1 * E)\<rparr>"

text \<open>
  \<^verbatim>\<open>for line in response: ... E = next(energies).energy ... print(...)\<close>: the rows printed,
  and whether the loop ended without \<^verbatim>\<open>next\<close> raising StopIteration.
\<close>

fun results_loop :: "sample list \<Rightarrow> real list \<Rightarrow> row list \<times> bool" where
  "results_loop [] es = ([], True)"
| "results_loop (line # ls) [] = ([], False)"
| "results_loop (line # ls) (E # es) =
     (case results_loop ls es of (rs, ok) \<Rightarrow> (print_row line E # rs, ok))"

text \<open>The number of edges with one end in each of two lists of nodes.\<close>

definition cut_between :: "node list \<Rightarrow> node list \<Rightarrow> edge list \<Rightarrow> nat" where
  "cut_between A B es =
     length (filter (\<lambda>(u, v). (u \<in> set A \<and> v \<in> set B) \<or> (u \<in> set B \<and> v \<in> set A)) es)"

section \<open>The best result, for the plot\<close>

text \<open>
  A list comprehension whose condition reads a dictionary: a missing key raises
  KeyError and no list is made (\<open>None\<close>).
\<close>

fun py_filter :: "('a \<Rightarrow> bool option) \<Rightarrow> 'a list \<Rightarrow> 'a list option" where
  "py_filter p [] = Some []"
| "py_filter p (x # xs) =
     (case p x of
        None \<Rightarrow> None
      | Some b \<Rightarrow>
          (case py_filter p xs of
             None \<Rightarrow> None
           | Some ys \<Rightarrow> Some (if b then x # ys else ys)))"

text \<open>\<^verbatim>\<open>lut[u] != lut[v]\<close>, reading \<^verbatim>\<open>lut[u]\<close> first.\<close>

definition lut_differ :: "sample \<Rightarrow> edge \<Rightarrow> bool option" where
  "lut_differ lut e =
     (case e of (u, v) \<Rightarrow>
        (case map_of lut u of
           None \<Rightarrow> None
         | Some a \<Rightarrow> (case map_of lut v of None \<Rightarrow> None | Some b \<Rightarrow> Some (a \<noteq> b))))"

text \<open>\<^verbatim>\<open>S0 = [node for node in G.nodes if not lut[node]]\<close>: a number is false when it is 0.\<close>

definition best_S0 :: "graph \<Rightarrow> sample \<Rightarrow> node list option" where
  "best_S0 g lut = py_filter (\<lambda>n. map_option (\<lambda>v. \<not> (v \<noteq> 0)) (map_of lut n)) (nodes g)"

text \<open>\<^verbatim>\<open>S1 = [node for node in G.nodes if lut[node]]\<close>\<close>

definition best_S1 :: "graph \<Rightarrow> sample \<Rightarrow> node list option" where
  "best_S1 g lut = py_filter (\<lambda>n. map_option (\<lambda>v. v \<noteq> 0) (map_of lut n)) (nodes g)"

text \<open>\<^verbatim>\<open>cut_edges = [(u, v) for u, v in G.edges if lut[u]!=lut[v]]\<close>\<close>

definition cut_edges :: "graph \<Rightarrow> sample \<Rightarrow> edge list option" where
  "cut_edges g lut = py_filter (lut_differ lut) (edges g)"

text \<open>\<^verbatim>\<open>uncut_edges = [(u, v) for u, v in G.edges if lut[u]==lut[v]]\<close>\<close>

definition uncut_edges :: "graph \<Rightarrow> sample \<Rightarrow> edge list option" where
  "uncut_edges g lut = py_filter (\<lambda>e. map_option Not (lut_differ lut e)) (edges g)"

section \<open>The graph and its dictionary, computed\<close>

lemma G_value:
  "G = [(1, [2, 3]), (2, [1, 4]), (3, [1, 4, 5]), (4, [2, 3, 5]), (5, [3, 4])]"
  by (simp add: G_def add_edges_from_def add_edge_def add_nbr_def add_node_def)

lemma nodes_G: "nodes G = [1, 2, 3, 4, 5]"
  by (simp add: G_value nodes_def)

lemma edges_G: "edges G = [(1,2),(1,3),(2,4),(3,4),(3,5),(4,5)]"
  by (simp add: G_value edges_def)

lemma Q_value:
  "Q = [((1,1), - 2), ((2,2), - 2), ((1,2), 2), ((3,3), - 3), ((1,3), 2), ((4,4), - 3),
        ((2,4), 2), ((3,4), 2), ((5,5), - 2), ((3,5), 2), ((4,5), 2)]"
  by (simp add: Q_def edges_G qubo_loop_def loop_body_def)

section \<open>The objective of the dictionary is the cut, negated\<close>

lemma energy_dict_add:
  "qubo_energy (dict_add (i, j) c q) x = qubo_energy q x + c * x i * x j"
  by (induction q) (auto simp: qubo_energy_def algebra_simps)

lemma energy_loop_body:
  assumes "x u = 0 \<or> x u = 1" "x v = 0 \<or> x v = 1"
  shows "qubo_energy (loop_body (u, v) q) x = qubo_energy q x - int (cut_size [(u, v)] x)"
  using assms by (auto simp: loop_body_def energy_dict_add cut_size_def)

lemma energy_qubo_loop:
  assumes "\<forall>(u, v) \<in> set es. (x u = 0 \<or> x u = 1) \<and> (x v = 0 \<or> x v = 1)"
  shows "qubo_energy (qubo_loop es q) x = qubo_energy q x - int (cut_size es x)"
  using assms
proof (induction es arbitrary: q)
  case Nil
  then show ?case by (simp add: qubo_loop_def cut_size_def)
next
  case (Cons e es)
  obtain u v where e: "e = (u, v)" by (cases e)
  have b: "(x u = 0 \<or> x u = 1) \<and> (x v = 0 \<or> x v = 1)" using Cons.prems e by auto
  have "qubo_energy (qubo_loop (e # es) q) x = qubo_energy (qubo_loop es (loop_body e q)) x"
    by (simp add: qubo_loop_def)
  also have "\<dots> = qubo_energy (loop_body e q) x - int (cut_size es x)"
    using Cons.IH Cons.prems by simp
  also have "\<dots> = qubo_energy q x - int (cut_size [(u, v)] x) - int (cut_size es x)"
    using b e energy_loop_body by simp
  finally show ?case by (simp add: e cut_size_def)
qed

lemma energy_is_cut:
  "binary_on (nodes G) x \<Longrightarrow> qubo_energy Q x = - int (cut_size (edges G) x)"
  unfolding Q_def
  apply (subst energy_qubo_loop)
   apply (simp add: edges_G binary_on_def nodes_G)
  apply (simp add: qubo_energy_def)
  done

lemma cut_le_5: "binary_on (nodes G) x \<Longrightarrow> cut_size (edges G) x \<le> 5"
  by (auto simp: binary_on_def nodes_G edges_G cut_size_def)

text \<open>
  C1. For every assignment \<open>x\<close> of 0 or 1 to the five nodes, the objective of \<open>Q\<close>, the
  sum over its keys \<open>(i, j)\<close> of \<open>Q[(i, j)] * x i * x j\<close>, is minus the number of edges
  of \<open>G\<close> whose ends have different values.
\<close>

theorem qubo_objective_is_minus_cut:
  "binary_on (nodes G) x \<Longrightarrow> length (nodes G) = 5
     \<and> qubo_energy Q x = - int (cut_size (edges G) x)"
  by (simp add: energy_is_cut nodes_G)

theorem qubo_objective_is_minus_cut_witness:
  "binary_on (nodes G) (\<lambda>n. if n = 2 \<or> n = 3 then 0 else 1)
   \<and> length (nodes G) = 5
   \<and> qubo_energy Q (\<lambda>n. if n = 2 \<or> n = 3 then 0 else 1)
       = - int (cut_size (edges G) (\<lambda>n. if n = 2 \<or> n = 3 then 0 else 1))"
proof -
  have h: "binary_on (nodes G) (\<lambda>n. if n = 2 \<or> n = 3 then 0 else 1)"
    by (simp add: binary_on_def nodes_G)
  show ?thesis using h qubo_objective_is_minus_cut [OF h] by blast
qed

section \<open>The loop, update by update\<close>











section \<open>The graph literal\<close>

lemma setup_cell_vars: "var_G (setup_cell s) = G \<and> var_Q (setup_cell s) = Q"
  by (simp add: setup_cell_def G_def Q_def Let_def)

text \<open>
  C3. \<open>G\<close> has the five nodes 1 to 5 and the six undirected edges (1,2), (1,3), (2,4),
  (3,4), (3,5), (4,5). It is a literal: whatever the notebook held before, the cell
  leaves the same graph and the same dictionary.
\<close>

theorem graph_literal:
  "nodes G = [1, 2, 3, 4, 5]
   \<and> set (nodes G) = {1, 2, 3, 4, 5} \<and> card (set (nodes G)) = 5
   \<and> edges G = [(1,2),(1,3),(2,4),(3,4),(3,5),(4,5)]
   \<and> (\<lambda>(u, v). {u, v}) ` set (edges G) = {{1,2},{1,3},{2,4},{3,4},{3,5},{4,5}}
   \<and> card ((\<lambda>(u, v). {u, v}) ` set (edges G)) = 6
   \<and> G = [(1, [2, 3]), (2, [1, 4]), (3, [1, 4, 5]), (4, [2, 3, 5]), (5, [3, 4])]
   \<and> var_G (setup_cell s) = G \<and> var_Q (setup_cell s) = Q"
proof -
  have a: "set (nodes G) = {1, 2, 3, 4, 5} \<and> card (set (nodes G)) = 5"
    by (simp add: nodes_G)
  have b: "(\<lambda>(u, v). {u, v}) ` set (edges G) = {{1,2},{1,3},{2,4},{3,4},{3,5},{4,5}}"
    by (simp add: edges_G)
  have c: "card ((\<lambda>(u, v). {u, v}) ` set (edges G)) = 6"
    by (simp add: edges_G doubleton_eq_iff)
  show ?thesis using a b c nodes_G edges_G G_value setup_cell_vars [of s] by blast
qed

section \<open>The two sets and the two kinds of edges of the plot\<close>

lemma py_filter_total:
  "\<forall>x \<in> set xs. p x \<noteq> None \<Longrightarrow> py_filter p xs = Some (filter (\<lambda>x. p x = Some True) xs)"
  by (induction xs) (auto split: option.splits)

lemma mset_split: "mset (filter P xs) + mset (filter (\<lambda>x. \<not> P x) xs) = mset xs"
  by (induction xs) auto

lemma nodes_partition:
  assumes "\<forall>n \<in> set (nodes g). map_of lut n = Some 0 \<or> map_of lut n = Some 1"
  shows "\<exists>s0 s1. best_S0 g lut = Some s0 \<and> best_S1 g lut = Some s1
           \<and> set s0 \<inter> set s1 = {} \<and> set s0 \<union> set s1 = set (nodes g)
           \<and> mset s0 + mset s1 = mset (nodes g)"
proof -
  let ?p0 = "\<lambda>n. map_option (\<lambda>v. \<not> (v \<noteq> 0)) (map_of lut n)"
  let ?p1 = "\<lambda>n. map_option (\<lambda>v. v \<noteq> 0) (map_of lut n)"
  let ?s0 = "filter (\<lambda>n. ?p0 n = Some True) (nodes g)"
  let ?s1 = "filter (\<lambda>n. ?p1 n = Some True) (nodes g)"
  have t0: "\<forall>n \<in> set (nodes g). ?p0 n \<noteq> None" using assms by auto
  have t1: "\<forall>n \<in> set (nodes g). ?p1 n \<noteq> None" using assms by auto
  have e0: "best_S0 g lut = Some ?s0"
    unfolding best_S0_def by (rule py_filter_total [OF t0])
  have e1: "best_S1 g lut = Some ?s1"
    unfolding best_S1_def by (rule py_filter_total [OF t1])
  have c: "?s1 = filter (\<lambda>n. \<not> (?p0 n = Some True)) (nodes g)"
    using assms by (intro filter_cong) auto
  have m: "mset ?s0 + mset ?s1 = mset (nodes g)"
    unfolding c by (rule mset_split)
  have d: "set ?s0 \<inter> set ?s1 = {}" unfolding c by auto
  have u: "set ?s0 \<union> set ?s1 = set (nodes g)" unfolding c by auto
  show ?thesis using e0 e1 m d u by blast
qed

lemma edges_partition:
  assumes "\<forall>e \<in> set (edges g). lut_differ lut e \<noteq> None"
  shows "\<exists>ce ue. cut_edges g lut = Some ce \<and> uncut_edges g lut = Some ue
           \<and> set ce \<inter> set ue = {} \<and> set ce \<union> set ue = set (edges g)
           \<and> mset ce + mset ue = mset (edges g)"
proof -
  let ?q = "\<lambda>e. map_option Not (lut_differ lut e)"
  let ?ce = "filter (\<lambda>e. lut_differ lut e = Some True) (edges g)"
  let ?ue = "filter (\<lambda>e. ?q e = Some True) (edges g)"
  have t1: "\<forall>e \<in> set (edges g). ?q e \<noteq> None" using assms by auto
  have e0: "cut_edges g lut = Some ?ce"
    unfolding cut_edges_def by (rule py_filter_total [OF assms])
  have e1: "uncut_edges g lut = Some ?ue"
    unfolding uncut_edges_def by (rule py_filter_total [OF t1])
  have c: "?ue = filter (\<lambda>e. \<not> (lut_differ lut e = Some True)) (edges g)"
  proof (intro filter_cong refl)
    fix e assume "e \<in> set (edges g)"
    then obtain b where "lut_differ lut e = Some b" using assms by auto
    then show "(?q e = Some True) = (\<not> (lut_differ lut e = Some True))" by simp
  qed
  have m: "mset ?ce + mset ?ue = mset (edges g)"
    unfolding c by (rule mset_split)
  have d: "set ?ce \<inter> set ?ue = {}" unfolding c by auto
  have u: "set ?ce \<union> set ?ue = set (edges g)" unfolding c by auto
  show ?thesis using e0 e1 m d u by blast
qed

lemma lut_differ_G:
  assumes "\<forall>n \<in> set (nodes G). map_of lut n = Some 0 \<or> map_of lut n = Some 1"
  shows "\<forall>e \<in> set (edges G). lut_differ lut e \<noteq> None"
proof
  fix e assume "e \<in> set (edges G)"
  then obtain u v where e: "e = (u, v)" and "u \<in> set (nodes G)" and "v \<in> set (nodes G)"
    by (auto simp: edges_G nodes_G)
  then obtain a b where "map_of lut u = Some a" "map_of lut v = Some b"
    using assms by blast
  then show "lut_differ lut e \<noteq> None" by (simp add: lut_differ_def e)
qed

text \<open>
  C4. For a best sample \<open>lut\<close> that gives every node of \<open>G\<close> the value 0 or 1, the four
  comprehensions return their lists; \<open>S0\<close> and \<open>S1\<close> share no node and hold the nodes of
  \<open>G\<close> between them, and the cut and the uncut edges do the same for the edges.
\<close>

theorem plot_partition:
  assumes "\<forall>n \<in> set (nodes G). map_of lut n = Some 0 \<or> map_of lut n = Some 1"
  shows "\<exists>s0 s1 ce ue.
           best_S0 G lut = Some s0 \<and> best_S1 G lut = Some s1
         \<and> cut_edges G lut = Some ce \<and> uncut_edges G lut = Some ue
         \<and> set s0 \<inter> set s1 = {} \<and> set s0 \<union> set s1 = set (nodes G)
         \<and> mset s0 + mset s1 = mset (nodes G)
         \<and> set ce \<inter> set ue = {} \<and> set ce \<union> set ue = set (edges G)
         \<and> mset ce + mset ue = mset (edges G)"
  using nodes_partition [OF assms] edges_partition [OF lut_differ_G [OF assms]]
  by blast

theorem plot_partition_witness:
  "best_S0 G [(1,1),(2,0),(3,0),(4,1),(5,1)] = Some [2, 3]
   \<and> best_S1 G [(1,1),(2,0),(3,0),(4,1),(5,1)] = Some [1, 4, 5]
   \<and> cut_edges G [(1,1),(2,0),(3,0),(4,1),(5,1)] = Some [(1,2),(1,3),(2,4),(3,4),(3,5)]
   \<and> uncut_edges G [(1,1),(2,0),(3,0),(4,1),(5,1)] = Some [(4,5)]
   \<and> (\<exists>s0 s1 ce ue.
           best_S0 G [(1,1),(2,0),(3,0),(4,1),(5,1)] = Some s0
         \<and> best_S1 G [(1,1),(2,0),(3,0),(4,1),(5,1)] = Some s1
         \<and> cut_edges G [(1,1),(2,0),(3,0),(4,1),(5,1)] = Some ce
         \<and> uncut_edges G [(1,1),(2,0),(3,0),(4,1),(5,1)] = Some ue
         \<and> set s0 \<inter> set s1 = {} \<and> set s0 \<union> set s1 = set (nodes G)
         \<and> mset s0 + mset s1 = mset (nodes G)
         \<and> set ce \<inter> set ue = {} \<and> set ce \<union> set ue = set (edges G)
         \<and> mset ce + mset ue = mset (edges G))"
proof -
  have h: "\<forall>n \<in> set (nodes G). map_of [(1,1),(2,0),(3,0),(4,1),(5,1)] n = Some (0::int)
             \<or> map_of [(1,1),(2,0),(3,0),(4,1),(5,1)] n = Some 1"
    by (simp add: nodes_G)
  have v: "best_S0 G [(1,1),(2,0),(3,0),(4,1),(5,1)] = Some [2, 3]
   \<and> best_S1 G [(1,1),(2,0),(3,0),(4,1),(5,1)] = Some [1, 4, 5]
   \<and> cut_edges G [(1,1),(2,0),(3,0),(4,1),(5,1)] = Some [(1,2),(1,3),(2,4),(3,4),(3,5)]
   \<and> uncut_edges G [(1,1),(2,0),(3,0),(4,1),(5,1)] = Some [(4,5)]"
    by (simp add: best_S0_def best_S1_def cut_edges_def uncut_edges_def nodes_G edges_G
        lut_differ_def)
  show ?thesis using v plot_partition [OF h] by blast
qed

section \<open>What is sent to the sampler\<close>



text \<open>
  C6. The dictionary that reaches \<^verbatim>\<open>sample_qubo\<close> is the one the loop over the edges
  made: nothing between the loop and the call changes \<open>Q\<close>, and the call leaves the
  variable as it was.
\<close>

theorem dispatched_Q_is_loop_result:
  "sent (solve_cell (setup_cell s)) =
     sent s @ [\<lparr>arg_Q = qubo_loop (edges G) [], arg_chain_strength = Some 8,
                arg_num_reads = Some 10\<rparr>]
   \<and> arg_Q (last (sent (solve_cell (setup_cell s)))) = var_Q (setup_cell s)
   \<and> var_Q (setup_cell s) = qubo_loop (edges G) []
   \<and> var_Q (solve_cell (setup_cell s)) = var_Q (setup_cell s)"
  by (simp add: solve_cell_def setup_cell_def Let_def G_def)

section \<open>The best cut\<close>

lemma assignments_G:
  "assignments (nodes G) =
 [[(1, 0), (2, 0), (3, 0), (4, 0), (5, 0)],
  [(1, 1), (2, 0), (3, 0), (4, 0), (5, 0)],
  [(1, 0), (2, 1), (3, 0), (4, 0), (5, 0)],
  [(1, 1), (2, 1), (3, 0), (4, 0), (5, 0)],
  [(1, 0), (2, 0), (3, 1), (4, 0), (5, 0)],
  [(1, 1), (2, 0), (3, 1), (4, 0), (5, 0)],
  [(1, 0), (2, 1), (3, 1), (4, 0), (5, 0)],
  [(1, 1), (2, 1), (3, 1), (4, 0), (5, 0)],
  [(1, 0), (2, 0), (3, 0), (4, 1), (5, 0)],
  [(1, 1), (2, 0), (3, 0), (4, 1), (5, 0)],
  [(1, 0), (2, 1), (3, 0), (4, 1), (5, 0)],
  [(1, 1), (2, 1), (3, 0), (4, 1), (5, 0)],
  [(1, 0), (2, 0), (3, 1), (4, 1), (5, 0)],
  [(1, 1), (2, 0), (3, 1), (4, 1), (5, 0)],
  [(1, 0), (2, 1), (3, 1), (4, 1), (5, 0)],
  [(1, 1), (2, 1), (3, 1), (4, 1), (5, 0)],
  [(1, 0), (2, 0), (3, 0), (4, 0), (5, 1)],
  [(1, 1), (2, 0), (3, 0), (4, 0), (5, 1)],
  [(1, 0), (2, 1), (3, 0), (4, 0), (5, 1)],
  [(1, 1), (2, 1), (3, 0), (4, 0), (5, 1)],
  [(1, 0), (2, 0), (3, 1), (4, 0), (5, 1)],
  [(1, 1), (2, 0), (3, 1), (4, 0), (5, 1)],
  [(1, 0), (2, 1), (3, 1), (4, 0), (5, 1)],
  [(1, 1), (2, 1), (3, 1), (4, 0), (5, 1)],
  [(1, 0), (2, 0), (3, 0), (4, 1), (5, 1)],
  [(1, 1), (2, 0), (3, 0), (4, 1), (5, 1)],
  [(1, 0), (2, 1), (3, 0), (4, 1), (5, 1)],
  [(1, 1), (2, 1), (3, 0), (4, 1), (5, 1)],
  [(1, 0), (2, 0), (3, 1), (4, 1), (5, 1)],
  [(1, 1), (2, 0), (3, 1), (4, 1), (5, 1)],
  [(1, 0), (2, 1), (3, 1), (4, 1), (5, 1)],
  [(1, 1), (2, 1), (3, 1), (4, 1), (5, 1)]]"
  by (simp add: assignments_def nodes_G eval_nat_numeral)

lemma energies_G:
  "map (\<lambda>s. qubo_energy Q (sample_value s)) (assignments (nodes G)) =
   [0, - 2, - 2, - 2, - 3, - 3, - 5, - 3, - 3, - 5, - 3, - 3, - 4, - 4, - 4,
    - 2, - 2, - 4, - 4, - 4, - 3, - 3, - 5, - 3, - 3, - 5, - 3, - 3, - 2, - 2,
    - 2, 0]"
  unfolding assignments_G by (simp add: Q_value qubo_energy_def sample_value_def)

lemma cuts_G:
  "map (\<lambda>s. cut_size (edges G) (sample_value s)) (assignments (nodes G)) =
   [0, 2, 2, 2, 3, 3, 5, 3, 3, 5, 3, 3, 4, 4, 4, 2, 2, 4, 4, 4, 3, 3, 5, 3, 3,
    5, 3, 3, 2, 2, 2, 0]"
  unfolding assignments_G by (simp add: edges_G cut_size_def sample_value_def)

lemma min_energy_G:
  "Min (set (map (\<lambda>s. qubo_energy Q (sample_value s)) (assignments (nodes G)))) = - 5"
  unfolding energies_G by simp

lemma max_cut_G:
  "Max (set (map (\<lambda>s. cut_size (edges G) (sample_value s)) (assignments (nodes G)))) = 5"
  unfolding cuts_G by simp

lemma best_in_assignments: "[(1, 1), (2, 0), (3, 0), (4, 1), (5, 1)] \<in> set (assignments (nodes G))"
  unfolding assignments_G by simp

text \<open>
  C7. Over the 32 assignments of the five nodes the least objective of \<open>Q\<close> is -5 and the
  largest cut is 5; the sample with \<open>{2, 3}\<close> against \<open>{1, 4, 5}\<close> reaches both, and no
  assignment cuts all six edges.
\<close>

theorem max_cut_is_5:
  "length (assignments (nodes G)) = 32
   \<and> Min (set (map (\<lambda>s. qubo_energy Q (sample_value s)) (assignments (nodes G)))) = - 5
   \<and> Max (set (map (\<lambda>s. cut_size (edges G) (sample_value s)) (assignments (nodes G)))) = 5
   \<and> [(1, 1), (2, 0), (3, 0), (4, 1), (5, 1)] \<in> set (assignments (nodes G))
   \<and> row_S0 [(1, 1), (2, 0), (3, 0), (4, 1), (5, 1)] = [2, 3]
   \<and> row_S1 [(1, 1), (2, 0), (3, 0), (4, 1), (5, 1)] = [1, 4, 5]
   \<and> qubo_energy Q (sample_value [(1, 1), (2, 0), (3, 0), (4, 1), (5, 1)]) = - 5
   \<and> cut_size (edges G) (sample_value [(1, 1), (2, 0), (3, 0), (4, 1), (5, 1)]) = 5
   \<and> length (edges G) = 6
   \<and> (\<forall>x. binary_on (nodes G) x \<longrightarrow>
          cut_size (edges G) x \<le> 5 \<and> cut_size (edges G) x \<noteq> length (edges G)
          \<and> - 5 \<le> qubo_energy Q x)"
proof -
  have a: "length (assignments (nodes G)) = 32"
    unfolding assignments_G by simp
  have b: "row_S0 [(1, 1), (2, 0), (3, 0), (4, 1), (5, 1)] = [2, 3]
     \<and> row_S1 [(1, 1), (2, 0), (3, 0), (4, 1), (5, 1)] = [1, 4, 5]"
    by (simp add: row_S0_def row_S1_def)
  have c: "qubo_energy Q (sample_value [(1, 1), (2, 0), (3, 0), (4, 1), (5, 1)]) = - 5"
    by (simp add: Q_value qubo_energy_def sample_value_def)
  have d: "cut_size (edges G) (sample_value [(1, 1), (2, 0), (3, 0), (4, 1), (5, 1)]) = 5"
    by (simp add: edges_G cut_size_def sample_value_def)
  have e: "length (edges G) = 6" by (simp add: edges_G)
  have f: "cut_size (edges G) x \<le> 5 \<and> cut_size (edges G) x \<noteq> length (edges G)
      \<and> - 5 \<le> qubo_energy Q x" if "binary_on (nodes G) x" for x
    using cut_le_5 [OF that] energy_is_cut [OF that] e by simp
  show ?thesis using a b c d e f min_energy_G max_cut_G best_in_assignments by blast
qed

theorem max_cut_is_5_witness:
  "binary_on (nodes G) (\<lambda>n. if n = 1 \<or> n = 4 then 1 else 0)
   \<and> cut_size (edges G) (\<lambda>n. if n = 1 \<or> n = 4 then 1 else 0) \<le> 5
   \<and> - 5 \<le> qubo_energy Q (\<lambda>n. if n = 1 \<or> n = 4 then 1 else 0)"
proof -
  have h: "binary_on (nodes G) (\<lambda>n. if n = 1 \<or> n = 4 then 1 else 0)"
    by (simp add: binary_on_def nodes_G)
  show ?thesis using h max_cut_is_5 by blast
qed

section \<open>The cut size of a printed row\<close>

lemma py_int_of_int: "py_int (of_int n) = n"
  by (simp add: py_int_def)

lemma sample_in:
  assumes "distinct (map fst s)"
  shows "(k, v) \<in> set s \<longleftrightarrow> map_of s k = Some v"
  using assms by (metis map_of_SomeD map_of_is_SomeI)

lemma row_S0_iff:
  assumes "distinct (map fst s)" "k \<in> set (map fst s)"
  shows "k \<in> set (row_S0 s) \<longleftrightarrow> sample_value s k = 0"
proof -
  obtain v where v: "map_of s k = Some v" using assms(2)
    by (metis map_of_eq_None_iff not_Some_eq set_map)
  have "k \<in> set (row_S0 s) \<longleftrightarrow> (k, 0) \<in> set s"
    by (force simp: row_S0_def)
  also have "\<dots> \<longleftrightarrow> map_of s k = Some 0" by (rule sample_in [OF assms(1)])
  finally show ?thesis by (simp add: sample_value_def v)
qed

lemma row_S1_iff:
  assumes "distinct (map fst s)" "k \<in> set (map fst s)"
  shows "k \<in> set (row_S1 s) \<longleftrightarrow> sample_value s k = 1"
proof -
  obtain v where v: "map_of s k = Some v" using assms(2)
    by (metis map_of_eq_None_iff not_Some_eq set_map)
  have "k \<in> set (row_S1 s) \<longleftrightarrow> (k, 1) \<in> set s"
    by (force simp: row_S1_def)
  also have "\<dots> \<longleftrightarrow> map_of s k = Some 1" by (rule sample_in [OF assms(1)])
  finally show ?thesis by (simp add: sample_value_def v)
qed

lemma sample_binary:
  assumes "is_sample_of ns s"
  shows "binary_on ns (sample_value s)"
proof -
  have "sample_value s n = 0 \<or> sample_value s n = 1" if "n \<in> set ns" for n
  proof -
    from that assms have "n \<in> set (map fst s)" by (simp add: is_sample_of_def)
    then obtain v where v: "map_of s n = Some v"
      by (metis map_of_eq_None_iff not_Some_eq set_map)
    then have "(n, v) \<in> set s" by (rule map_of_SomeD)
    with assms have "v = 0 \<or> v = 1" by (auto simp: is_sample_of_def list_all_iff)
    then show ?thesis by (simp add: sample_value_def v)
  qed
  then show ?thesis by (simp add: binary_on_def list_all_iff)
qed

lemma cut_between_rows:
  assumes s: "is_sample_of ns s"
    and es: "\<forall>(u, v) \<in> set es. u \<in> set ns \<and> v \<in> set ns"
  shows "cut_between (row_S0 s) (row_S1 s) es = cut_size es (sample_value s)"
proof -
  have d: "distinct (map fst s)" and k: "set (map fst s) = set ns"
    using s by (simp_all add: is_sample_of_def)
  have b: "binary_on ns (sample_value s)" by (rule sample_binary [OF s])
  have "filter (\<lambda>(u, v). (u \<in> set (row_S0 s) \<and> v \<in> set (row_S1 s))
                        \<or> (u \<in> set (row_S1 s) \<and> v \<in> set (row_S0 s))) es
      = filter (\<lambda>(u, v). sample_value s u \<noteq> sample_value s v) es"
  proof (intro filter_cong refl)
    fix e assume e: "e \<in> set es"
    obtain u v where uv: "e = (u, v)" by (cases e)
    have m: "u \<in> set (map fst s)" "v \<in> set (map fst s)" using es e uv k by auto
    have bu: "sample_value s u = 0 \<or> sample_value s u = 1"
      and bv: "sample_value s v = 0 \<or> sample_value s v = 1"
      using b m k by (auto simp: binary_on_def list_all_iff)
    show "(case e of (u, v) \<Rightarrow> (u \<in> set (row_S0 s) \<and> v \<in> set (row_S1 s))
                        \<or> (u \<in> set (row_S1 s) \<and> v \<in> set (row_S0 s)))
        = (case e of (u, v) \<Rightarrow> sample_value s u \<noteq> sample_value s v)"
      using bu bv
      by (auto simp: uv row_S0_iff [OF d m(1)] row_S0_iff [OF d m(2)]
          row_S1_iff [OF d m(1)] row_S1_iff [OF d m(2)])
  qed
  then show ?thesis by (simp add: cut_between_def cut_size_def)
qed

lemma edges_G_in_nodes: "\<forall>(u, v) \<in> set (edges G). u \<in> set (nodes G) \<and> v \<in> set (nodes G)"
  by (simp add: edges_G nodes_G)

lemma print_row_cut:
  assumes "is_sample_of (nodes G) line" "E = real_of_int (qubo_energy Q (sample_value line))"
  shows "row_cut (print_row line E) = int (cut_between (row_S0 line) (row_S1 line) (edges G))"
proof -
  have "qubo_energy Q (sample_value line) = - int (cut_size (edges G) (sample_value line))"
    by (rule energy_is_cut [OF sample_binary [OF assms(1)]])
  then have "- 1 * E = real_of_int (int (cut_size (edges G) (sample_value line)))"
    using assms(2) by simp
  then have "py_int (- 1 * E) = int (cut_size (edges G) (sample_value line))"
    by (simp only: py_int_of_int)
  then show ?thesis
    by (simp add: print_row_def cut_between_rows [OF assms(1) edges_G_in_nodes])
qed

lemma results_loop_rows:
  "length es = length ls \<Longrightarrow> results_loop ls es = (map2 print_row ls es, True)"
  by (induction ls es rule: results_loop.induct) auto

text \<open>
  C8. Every row of the table prints \<^verbatim>\<open>int(-1*E)\<close> as its cut size, \<open>E\<close> being the
  energy taken from the iterator for that row. When the samples and the energies come
  in the same order, each energy the objective of \<open>Q\<close> at its sample, the loop prints a
  row for every sample and the cut size of a row is the number of edges of \<open>G\<close> between
  the Set 0 and the Set 1 of that row.
\<close>

theorem printed_cut_size:
  assumes "list_all2 (\<lambda>line E. is_sample_of (nodes G) line
              \<and> E = real_of_int (qubo_energy Q (sample_value line))) ls es"
  shows "results_loop ls es = (map2 print_row ls es, True)
     \<and> (\<forall>r \<in> set (fst (results_loop ls es)).
           row_cut r = py_int (- 1 * row_energy r)
         \<and> row_cut r = int (cut_between (row_set0 r) (row_set1 r) (edges G)))"
proof -
  have len: "length es = length ls" using assms by (simp add: list_all2_lengthD)
  have rows: "results_loop ls es = (map2 print_row ls es, True)"
    by (rule results_loop_rows [OF len])
  have "row_cut r = py_int (- 1 * row_energy r)
      \<and> row_cut r = int (cut_between (row_set0 r) (row_set1 r) (edges G))"
    if "r \<in> set (map2 print_row ls es)" for r
  proof -
    from that obtain line E where z: "(line, E) \<in> set (zip ls es)"
      and r: "r = print_row line E" by auto
    from assms z have s: "is_sample_of (nodes G) line"
      and E: "E = real_of_int (qubo_energy Q (sample_value line))"
      by (auto simp: list_all2_iff)
    have "row_cut (print_row line E) = int (cut_between (row_S0 line) (row_S1 line) (edges G))"
      by (rule print_row_cut [OF s E])
    then show ?thesis by (simp add: r print_row_def)
  qed
  then have "\<forall>r \<in> set (fst (results_loop ls es)).
           row_cut r = py_int (- 1 * row_energy r)
         \<and> row_cut r = int (cut_between (row_set0 r) (row_set1 r) (edges G))"
    unfolding rows fst_conv by blast
  then show ?thesis using rows by blast
qed

theorem printed_cut_size_witness:
  "results_loop [[(1, 1), (2, 0), (3, 0), (4, 1), (5, 1)]] [- 5]
     = ([\<lparr>row_set0 = [2, 3], row_set1 = [1, 4, 5], row_energy = - 5, row_cut = 5\<rparr>], True)
   \<and> int (cut_between [2, 3] [1, 4, 5] (edges G)) = 5"
proof -
  have s: "is_sample_of (nodes G) [(1, 1), (2, 0), (3, 0), (4, 1), (5, 1)]"
    by (simp add: is_sample_of_def nodes_G)
  have E: "(- 5 :: real)
      = real_of_int (qubo_energy Q (sample_value [(1, 1), (2, 0), (3, 0), (4, 1), (5, 1)]))"
    by (simp add: Q_value qubo_energy_def sample_value_def)
  have h: "list_all2 (\<lambda>line E. is_sample_of (nodes G) line
              \<and> E = real_of_int (qubo_energy Q (sample_value line)))
            [[(1, 1), (2, 0), (3, 0), (4, 1), (5, 1)]] [- 5]"
    using s E by simp
  have p: "print_row [(1, 1), (2, 0), (3, 0), (4, 1), (5, 1)] (- 5)
      = \<lparr>row_set0 = [2, 3], row_set1 = [1, 4, 5], row_energy = - 5, row_cut = 5\<rparr>"
    by (simp add: print_row_def row_S0_def row_S1_def py_int_def)
  show ?thesis using printed_cut_size [OF h] p by simp
qed

section \<open>The keys of the dictionary\<close>

lemma keys_Q: "keys Q = [(1,1),(2,2),(1,2),(3,3),(1,3),(4,4),(2,4),(3,4),(5,5),(3,5),(4,5)]"
  by (simp add: Q_value keys_def)

text \<open>
  C9. After the loop \<open>Q\<close> has 11 keys: \<open>(i, i)\<close> for the five nodes and \<open>(u, v)\<close> for each
  edge as listed. No edge has its reversed key in \<open>Q\<close>, so \<open>Q\<close> is not symmetric.
\<close>

theorem qubo_keys:
  "length (keys Q) = 11 \<and> distinct (keys Q) \<and> card (set (keys Q)) = 11
   \<and> set (keys Q) = (\<lambda>i. (i, i)) ` {1, 2, 3, 4, 5} \<union> set (edges G)
   \<and> (\<forall>(u, v) \<in> set (edges G). (v, u) \<notin> set (keys Q))
   \<and> map_of Q (1, 2) = Some 2 \<and> map_of Q (2, 1) = None"
proof -
  have a: "length (keys Q) = 11 \<and> distinct (keys Q) \<and> card (set (keys Q)) = 11"
    by (simp add: keys_Q)
  have b: "set (keys Q) = (\<lambda>i. (i, i)) ` {1, 2, 3, 4, 5} \<union> set (edges G)"
    by (simp add: keys_Q edges_G) blast
  have c: "\<forall>(u, v) \<in> set (edges G). (v, u) \<notin> set (keys Q)"
    by (simp add: keys_Q edges_G)
  have d: "map_of Q (1, 2) = Some 2 \<and> map_of Q (2, 1) = None"
    by (simp add: Q_value)
  show ?thesis using a b c d by blast
qed

theorem qubo_keys_witness:
  "(4, 5) \<in> set (edges G) \<and> (5, 4) \<notin> set (keys Q) \<and> (4, 5) \<in> set (keys Q)"
proof -
  have e: "(4, 5) \<in> set (edges G)" by (simp add: edges_G)
  from qubo_keys have "\<forall>(u, v) \<in> set (edges G). (v, u) \<notin> set (keys Q)" by blast
  with e have r: "(5, 4) \<notin> set (keys Q)" by blast
  from qubo_keys e have "(4, 5) \<in> set (keys Q)" by blast
  with e r show ?thesis by blast
qed

end
